theory Spec2Isabelle
  imports Main "HOL-Library.Log_Nat" "HOL-Library.Multiset"
begin

section \<open>The fund watcher: data model\<close>

text \<open>
  The program reads a list of fund identifiers with weights, fetches one quote per
  identifier, and reports the quotes together with the weight-normalised mean of their
  estimated growth rates. Two files hold an implementation: \<^verbatim>\<open>main.go\<close> (the program that is
  built) and the older \<^verbatim>\<open>src/Fund.go\<close>. Functions of the older file carry the suffix
  \<open>_old\<close> below.
\<close>

subsection \<open>float64\<close>

text \<open>
  A Go \<^verbatim>\<open>float64\<close> is an IEEE 754 binary64 number. Finite values are kept as the rational
  number they denote; the negative zero, the two infinities and NaN are separate values.
  Every arithmetic operation computes the exact rational result and rounds it to the
  nearest representable number, ties to the even significand, as the hardware does.
\<close>

datatype float64 = Fin rat | NegZero | PosInf | NegInf | NaN

definition pow2 :: "int \<Rightarrow> rat" where
  "pow2 k = (if 0 \<le> k then 2 ^ nat k else 1 / 2 ^ nat (- k))"

text \<open>The exponent of the binade of a positive rational: \<open>pow2 (ilog2 q) \<le> q < pow2 (ilog2 q + 1)\<close>.\<close>

definition ilog2 :: "rat \<Rightarrow> int" where
  "ilog2 q = (if 1 \<le> q then bitlen \<lfloor>q\<rfloor> - 1 else - bitlen (\<lceil>1 / q\<rceil> - 1))"

definition round_even :: "rat \<Rightarrow> int" where
  "round_even x = (let f = \<lfloor>x\<rfloor>; r = x - of_int f in
     if r < 1 / 2 then f else if 1 / 2 < r then f + 1 else if even f then f else f + 1)"

definition mk_zero :: "bool \<Rightarrow> float64" where
  "mk_zero neg = (if neg then NegZero else Fin 0)"

definition mk_inf :: "bool \<Rightarrow> float64" where
  "mk_inf neg = (if neg then NegInf else PosInf)"

text \<open>
  Rounding of the magnitude \<open>q \<ge> 0\<close> with sign \<open>neg\<close>: 53 significant bits, exponents
  from \<open>-1022\<close> (below it the numbers are subnormal, spaced \<open>pow2 (- 1074)\<close> apart) and
  overflow to infinity when the magnitude, before or after rounding, reaches \<open>pow2 1024\<close>.
\<close>

definition round64 :: "bool \<Rightarrow> rat \<Rightarrow> float64" where
  "round64 neg q = (if q = 0 then mk_zero neg else if pow2 1024 \<le> q then mk_inf neg else
     let e = max (ilog2 q) (- 1022); ulp = pow2 (e - 52);
         v = of_int (round_even (q / ulp)) * ulp
     in if pow2 1024 \<le> v then mk_inf neg else if v = 0 then mk_zero neg
        else Fin (if neg then - v else v))"

definition is_inf :: "float64 \<Rightarrow> bool" where
  "is_inf x = (x = PosInf \<or> x = NegInf)"

definition is_finite :: "float64 \<Rightarrow> bool" where
  "is_finite x = (case x of Fin q \<Rightarrow> True | NegZero \<Rightarrow> True | _ \<Rightarrow> False)"

definition is_zero :: "float64 \<Rightarrow> bool" where
  "is_zero x = (x = Fin 0 \<or> x = NegZero)"

text \<open>The sign bit, and the rational value of a finite number.\<close>

definition fneg :: "float64 \<Rightarrow> bool" where
  "fneg x = (case x of Fin q \<Rightarrow> q < 0 | NegZero \<Rightarrow> True | NegInf \<Rightarrow> True | _ \<Rightarrow> False)"

definition fval :: "float64 \<Rightarrow> rat" where
  "fval x = (case x of Fin q \<Rightarrow> q | _ \<Rightarrow> 0)"

definition fadd :: "float64 \<Rightarrow> float64 \<Rightarrow> float64" where
  "fadd x y =
     (if x = NaN \<or> y = NaN then NaN
      else if is_inf x then (if is_inf y \<and> x \<noteq> y then NaN else x)
      else if is_inf y then y
      else let r = fval x + fval y in
        if r = 0 then mk_zero (fneg x \<and> fneg y) else round64 (r < 0) \<bar>r\<bar>)"

definition fmul :: "float64 \<Rightarrow> float64 \<Rightarrow> float64" where
  "fmul x y =
     (if x = NaN \<or> y = NaN then NaN
      else if is_inf x \<or> is_inf y then
        (if is_zero x \<or> is_zero y then NaN else mk_inf (fneg x \<noteq> fneg y))
      else round64 (fneg x \<noteq> fneg y) \<bar>fval x * fval y\<bar>)"

definition fdiv :: "float64 \<Rightarrow> float64 \<Rightarrow> float64" where
  "fdiv x y =
     (if x = NaN \<or> y = NaN then NaN
      else if is_inf x then (if is_inf y then NaN else mk_inf (fneg x \<noteq> fneg y))
      else if is_inf y then mk_zero (fneg x \<noteq> fneg y)
      else if is_zero y then (if is_zero x then NaN else mk_inf (fneg x \<noteq> fneg y))
      else round64 (fneg x \<noteq> fneg y) \<bar>fval x / fval y\<bar>)"

text \<open>
  Go's comparison operators on \<^verbatim>\<open>float64\<close>: every comparison with NaN is false (also
  \<^verbatim>\<open>NaN == NaN\<close>), and the two zeros are equal.
\<close>

definition fge :: "float64 \<Rightarrow> float64 \<Rightarrow> bool" where
  "fge x y =
     (if x = NaN \<or> y = NaN then False
      else if x = PosInf \<or> y = NegInf then True
      else if x = NegInf \<or> y = PosInf then False
      else fval y \<le> fval x)"

definition feq :: "float64 \<Rightarrow> float64 \<Rightarrow> bool" where
  "feq x y = (fge x y \<and> fge y x)"

definition fgt :: "float64 \<Rightarrow> float64 \<Rightarrow> bool" where
  "fgt x y = (fge x y \<and> \<not> fge y x)"

subsection \<open>Structs\<close>

record Fund =
  FCODE :: string
  SHORTNAME :: string
  GZTIME :: string
  GSZZL :: string

text \<open>\<^verbatim>\<open>FundItem\<close> embeds \<^verbatim>\<open>Fund\<close> and adds the weight.\<close>

record FundItem = Fund +
  Weight :: float64

record FundId =
  FundId_Id :: string
  FundId_Weight :: float64

record FundResult =
  Funds :: "FundItem list"
  Avg :: float64

section \<open>Library functions the program calls\<close>

subsection \<open>strconv.ParseFloat\<close>

text \<open>
  \<^verbatim>\<open>strconv.ParseFloat(s, 64)\<close> belongs to the Go standard library. The model follows
  \<^verbatim>\<open>strconv/atof.go\<close>: \<^verbatim>\<open>special\<close> recognises the infinities and NaN,
  \<^verbatim>\<open>readFloat\<close> reads a decimal or hexadecimal mantissa and exponent, \<^verbatim>\<open>underscoreOK\<close>
  checks the digit separators, and the number read is rounded to the nearest \<^verbatim>\<open>float64\<close>.
  The library keeps the first 19 digits of the mantissa with a truncation flag and
  converts in several stages; the model keeps every digit and rounds once, which is the
  result the library documents (the nearest floating-point number, rounded with IEEE 754
  unbiased rounding). The returned pair is the value and the error: a syntax error comes
  with the value 0, a range error with an infinity.
\<close>

datatype NumError = ErrSyntax | ErrRange

definition byte :: "char \<Rightarrow> nat" where
  "byte c = of_char c"

text \<open>\<^verbatim>\<open>lower(c) = c | ('x' - 'X')\<close>\<close>

definition lower :: "char \<Rightarrow> nat" where
  "lower c = or (byte c) 32"

definition is_digit :: "char \<Rightarrow> bool" where
  "is_digit c = (byte (CHR ''0'') \<le> byte c \<and> byte c \<le> byte (CHR ''9''))"

definition is_hex_letter :: "char \<Rightarrow> bool" where
  "is_hex_letter c = (byte (CHR ''a'') \<le> lower c \<and> lower c \<le> byte (CHR ''f''))"

fun commonPrefixLenIgnoreCase :: "string \<Rightarrow> string \<Rightarrow> nat" where
  "commonPrefixLenIgnoreCase (c # s) (p # prefix) =
     (let c' = (if byte (CHR ''A'') \<le> byte c \<and> byte c \<le> byte (CHR ''Z'')
                then byte c + (byte (CHR ''a'') - byte (CHR ''A'')) else byte c)
      in if c' \<noteq> byte p then 0 else Suc (commonPrefixLenIgnoreCase s prefix))"
| "commonPrefixLenIgnoreCase _ _ = 0"

text \<open>\<^verbatim>\<open>special\<close> returns the value and the number of bytes it consumed.\<close>

definition special_inf :: "bool \<Rightarrow> nat \<Rightarrow> string \<Rightarrow> (float64 \<times> nat) option" where
  "special_inf neg nsign s =
     (let n = commonPrefixLenIgnoreCase s ''infinity'';
          n' = (if 3 < n \<and> n < 8 then 3 else n)
      in if n' = 3 \<or> n' = 8 then Some (mk_inf neg, nsign + n') else None)"

definition special :: "string \<Rightarrow> (float64 \<times> nat) option" where
  "special s =
     (case s of [] \<Rightarrow> None
      | c # cs \<Rightarrow>
          if c = CHR ''+'' then special_inf False 1 cs
          else if c = CHR ''-'' then special_inf True 1 cs
          else if c = CHR ''i'' \<or> c = CHR ''I'' then special_inf False 0 s
          else if c = CHR ''n'' \<or> c = CHR ''N'' then
            (if commonPrefixLenIgnoreCase s ''nan'' = 3 then Some (NaN, 3) else None)
          else None)"

text \<open>
  The digit loop of \<^verbatim>\<open>readFloat\<close>. Its state: whether an underscore, a dot or a digit
  has been seen, the number \<open>nd\<close> of digits after the leading zeros, the position \<open>dp\<close>
  of the point and the mantissa. It returns the state and the unread rest.
\<close>

record digits =
  underscores :: bool
  sawdot :: bool
  sawdigits :: bool
  nd :: nat
  dp :: int
  mantissa :: int

fun readDigits :: "int \<Rightarrow> digits \<Rightarrow> string \<Rightarrow> digits \<times> string" where
  "readDigits base d [] = (d, [])"
| "readDigits base d (c # cs) =
     (if c = CHR ''_'' then readDigits base (d\<lparr>underscores := True\<rparr>) cs
      else if c = CHR ''.'' then
        (if sawdot d then (d, c # cs)
         else readDigits base (d\<lparr>sawdot := True, dp := int (nd d)\<rparr>) cs)
      else if is_digit c then
        (if c = CHR ''0'' \<and> nd d = 0
         then readDigits base (d\<lparr>sawdigits := True, dp := dp d - 1\<rparr>) cs
         else readDigits base
                (d\<lparr>sawdigits := True, nd := nd d + 1,
                   mantissa := mantissa d * base + (int (byte c) - int (byte (CHR ''0'')))\<rparr>) cs)
      else if base = 16 \<and> is_hex_letter c then
        readDigits base
          (d\<lparr>sawdigits := True, nd := nd d + 1,
             mantissa := mantissa d * 16 + (int (lower c) - int (byte (CHR ''a'')) + 10)\<rparr>) cs
      else (d, c # cs))"

text \<open>
  The digits of the exponent: underscores are skipped and noted, and the exponent stops
  growing once it has reached 10000. Returns the exponent, the underscore flag and the rest.
\<close>

fun readExpDigits :: "int \<Rightarrow> bool \<Rightarrow> string \<Rightarrow> int \<times> bool \<times> string" where
  "readExpDigits e us [] = (e, us, [])"
| "readExpDigits e us (c # cs) =
     (if c = CHR ''_'' then readExpDigits e True cs
      else if is_digit c then
        readExpDigits (if e < 10000 then e * 10 + (int (byte c) - int (byte (CHR ''0''))) else e) us cs
      else (e, us, c # cs))"

fun underscoreLoop :: "bool \<Rightarrow> char \<Rightarrow> string \<Rightarrow> bool" where
  "underscoreLoop hex saw [] = (saw \<noteq> CHR ''_'')"
| "underscoreLoop hex saw (c # cs) =
     (if is_digit c \<or> hex \<and> is_hex_letter c then underscoreLoop hex (CHR ''0'') cs
      else if c = CHR ''_'' then
        (if saw \<noteq> CHR ''0'' then False else underscoreLoop hex (CHR ''_'') cs)
      else if saw = CHR ''_'' then False
      else underscoreLoop hex (CHR ''!'') cs)"

definition underscoreOK :: "string \<Rightarrow> bool" where
  "underscoreOK s0 =
     (let s = (case s0 of c # cs \<Rightarrow> if c = CHR ''-'' \<or> c = CHR ''+'' then cs else s0 | [] \<Rightarrow> s0)
      in case s of
           c0 # c1 # cs \<Rightarrow>
             if c0 = CHR ''0'' \<and>
                (lower c1 = byte (CHR ''b'') \<or> lower c1 = byte (CHR ''o'') \<or>
                 lower c1 = byte (CHR ''x''))
             then underscoreLoop (lower c1 = byte (CHR ''x'')) (CHR ''0'') cs
             else underscoreLoop False (CHR ''^'') s
         | _ \<Rightarrow> underscoreLoop False (CHR ''^'') s)"

text \<open>
  \<^verbatim>\<open>readFloat\<close> returns, when the text is a number, its sign, whether it is hexadecimal,
  the mantissa, the exponent (of 10, or of 2 for a hexadecimal number) and the unread rest.
\<close>

definition readFloat :: "string \<Rightarrow> (bool \<times> bool \<times> int \<times> int \<times> string) option" where
  "readFloat s =
     (case s of [] \<Rightarrow> None
      | c # cs \<Rightarrow>
        let neg = (c = CHR ''-'');
            s1 = (if c = CHR ''+'' \<or> c = CHR ''-'' then cs else s);
            hex = (2 < length s1 \<and> s1 ! 0 = CHR ''0'' \<and> lower (s1 ! 1) = byte (CHR ''x''));
            base = (if hex then 16 else 10);
            (d, s2) = readDigits base
                \<lparr>underscores = False, sawdot = False, sawdigits = False, nd = 0, dp = 0,
                 mantissa = 0\<rparr> (if hex then drop 2 s1 else s1)
        in if \<not> sawdigits d then None
           else
             let dp1 = (if sawdot d then dp d else int (nd d));
                 dp2 = (if hex then dp1 * 4 else dp1);
                 ndMant = (if hex then nd d * 4 else nd d);
                 finish = (\<lambda>dp3 us rest.
                    if us \<and> \<not> underscoreOK (take (length s - length rest) s) then None
                    else Some (neg, hex,
                               mantissa d, (if mantissa d \<noteq> 0 then dp3 - int ndMant else 0), rest))
             in case s2 of
                  [] \<Rightarrow> if hex then None else finish dp2 (underscores d) s2
                | x # xs \<Rightarrow>
                    if lower x = byte (if hex then CHR ''p'' else CHR ''e'') then
                      (case xs of [] \<Rightarrow> None
                       | y # ys \<Rightarrow>
                           let esign = (if y = CHR ''-'' then - 1 else 1 :: int);
                               s3 = (if y = CHR ''+'' \<or> y = CHR ''-'' then ys else xs)
                           in (case s3 of [] \<Rightarrow> None
                               | z # zs \<Rightarrow>
                                   if \<not> is_digit z then None
                                   else
                                     let (e, us, rest) = readExpDigits 0 (underscores d) s3
                                     in finish (dp2 + e * esign) us rest))
                    else if hex then None
                    else finish dp2 (underscores d) s2)"

text \<open>The exact value of the number read, and its conversion.\<close>

definition pow10 :: "int \<Rightarrow> rat" where
  "pow10 k = (if 0 \<le> k then 10 ^ nat k else 1 / 10 ^ nat (- k))"

definition atof64 :: "string \<Rightarrow> (float64 \<times> NumError option) \<times> nat" where
  "atof64 s =
     (case special s of
        Some (val, n) \<Rightarrow> ((val, None), n)
      | None \<Rightarrow>
         (case readFloat s of
            None \<Rightarrow> ((Fin 0, Some ErrSyntax), 0)
          | Some (neg, hex, m, ex, rest) \<Rightarrow>
              let f = round64 neg (rat_of_int m * (if hex then pow2 ex else pow10 ex))
              in ((f, if is_inf f then Some ErrRange else None), length s - length rest)))"

definition ParseFloat :: "string \<Rightarrow> float64 \<times> NumError option" where
  "ParseFloat s =
     (let ((f, err), n) = atof64 s
      in if n \<noteq> length s \<and> err \<noteq> Some ErrSyntax then (Fin 0, Some ErrSyntax) else (f, err))"

subsection \<open>strings.Split\<close>

text \<open>
  \<^verbatim>\<open>strings.Split(s, sep)\<close> for a separator of one byte, the only kind the program passes:
  the fields between the separators, one more than there are separators.
\<close>

fun splitFrom :: "char \<Rightarrow> string \<Rightarrow> string \<Rightarrow> string list" where
  "splitFrom sep cur [] = [cur]"
| "splitFrom sep cur (c # cs) =
     (if c = sep then cur # splitFrom sep [] cs else splitFrom sep (cur @ [c]) cs)"

definition Split :: "string \<Rightarrow> char \<Rightarrow> string list" where
  "Split s sep = splitFrom sep [] s"

subsection \<open>sort.Slice\<close>

text \<open>
  \<^verbatim>\<open>sort.Slice(x, less)\<close> belongs to the Go standard library (\<^verbatim>\<open>sort/zsortfunc.go\<close>).
  It reaches the slice only through \<^verbatim>\<open>less(i, j)\<close>, which compares the elements now at
  \<^verbatim>\<open>i\<close> and \<^verbatim>\<open>j\<close>, and through swaps. A slice of at most 12 elements is sorted by
  \<^verbatim>\<open>insertionSortLessFunc\<close>:
  \<^verbatim>\<open>for i := a + 1; i < b; i++ { for j := i; j > a && less(j, j-1); j-- { swap(j, j-1) } }\<close>
  A longer slice goes through the library's pattern-defeating quicksort, whose code is not
  modelled. Like every part of \<^verbatim>\<open>sort.Slice\<close> it changes the slice only by
  \<^verbatim>\<open>swap(i, j)\<close>: the parameter \<open>pdq\<close> of everything below gives the swaps it performs,
  in order, and nothing is assumed of them. The swapper panics on an index outside the
  slice; the library stays inside, and such a pair is passed over here.
\<close>

definition swap :: "'a list \<Rightarrow> nat \<Rightarrow> nat \<Rightarrow> 'a list" where
  "swap data i j = data[i := data ! j, j := data ! i]"

fun insertDown :: "('a \<Rightarrow> 'a \<Rightarrow> bool) \<Rightarrow> 'a list \<Rightarrow> nat \<Rightarrow> 'a list" where
  "insertDown lessFn data 0 = data"
| "insertDown lessFn data (Suc j) =
     (if lessFn (data ! Suc j) (data ! j) then insertDown lessFn (swap data (Suc j) j) j else data)"

definition insertionSort :: "('a \<Rightarrow> 'a \<Rightarrow> bool) \<Rightarrow> 'a list \<Rightarrow> 'a list" where
  "insertionSort lessFn data = foldl (insertDown lessFn) data [1..<length data]"

definition swapWithin :: "'a list \<Rightarrow> nat \<times> nat \<Rightarrow> 'a list" where
  "swapWithin data ij =
     (if fst ij < length data \<and> snd ij < length data then swap data (fst ij) (snd ij) else data)"

definition sort_Slice ::
  "(('a \<Rightarrow> 'a \<Rightarrow> bool) \<Rightarrow> 'a list \<Rightarrow> (nat \<times> nat) list) \<Rightarrow> 'a list \<Rightarrow> ('a \<Rightarrow> 'a \<Rightarrow> bool) \<Rightarrow> 'a list" where
  "sort_Slice pdq x lessFn =
     (if length x \<le> 12 then insertionSort lessFn x else foldl swapWithin x (pdq lessFn x))"

text \<open>A quicksort that swaps nothing, for the examples: they have at most 12 items.\<close>

definition no_swaps :: "('a \<Rightarrow> 'a \<Rightarrow> bool) \<Rightarrow> 'a list \<Rightarrow> (nat \<times> nat) list" where
  "no_swaps lessFn x = []"

section \<open>The program\<close>

subsection \<open>LoadFundIds\<close>

text \<open>
  A Go run-time panic is a value: indexing a slice of length \<open>n\<close> at \<open>i \<ge> n\<close> panics with
  \<^verbatim>\<open>index out of range [i] with length n\<close>.
\<close>

datatype panic = IndexOutOfRange nat nat

definition newline :: char where
  "newline = CHR 0x0A"

text \<open>
  The body of the loop over the lines in \<^verbatim>\<open>main.go\<close>: an empty line is skipped, any
  other line is split at the commas and its fields 0 and 1 are read.
\<close>

fun loadLines :: "string list \<Rightarrow> FundId list \<Rightarrow> panic + FundId list" where
  "loadLines [] fundIds = Inr fundIds"
| "loadLines (v # split) fundIds =
     (if v = [] then loadLines split fundIds
      else
        let i = Split v (CHR '','') in
        if length i \<le> 1 then Inl (IndexOutOfRange 1 (length i))
        else
          let (weight, _) = ParseFloat (i ! 1);
              x = \<lparr>FundId_Id = i ! 0, FundId_Weight = weight\<rparr>
          in loadLines split (fundIds @ [x]))"

text \<open>
  The argument is what \<^verbatim>\<open>os.ReadFile\<close> found at \<^verbatim>\<open>$HOME/.fund\<close>: \<open>None\<close> when the file
  cannot be read (the error is dropped and the bytes are empty).
\<close>

definition LoadFundIds :: "string option \<Rightarrow> panic + FundId list" where
  "LoadFundIds file =
     (let bytes = (case file of None \<Rightarrow> [] | Some b \<Rightarrow> b);
          split = Split bytes newline
      in loadLines split [])"

text \<open>The older \<^verbatim>\<open>src/Fund.go\<close> has the same loop without the test for the empty line.\<close>

fun loadLines_old :: "string list \<Rightarrow> FundId list \<Rightarrow> panic + FundId list" where
  "loadLines_old [] fundIds = Inr fundIds"
| "loadLines_old (v # split) fundIds =
     (let i = Split v (CHR '','') in
      if length i \<le> 1 then Inl (IndexOutOfRange 1 (length i))
      else
        let (weight, _) = ParseFloat (i ! 1);
            x = \<lparr>FundId_Id = i ! 0, FundId_Weight = weight\<rparr>
        in loadLines_old split (fundIds @ [x]))"

definition LoadFundIds_old :: "string option \<Rightarrow> panic + FundId list" where
  "LoadFundIds_old file =
     (let bytes = (case file of None \<Rightarrow> [] | Some b \<Rightarrow> b);
          split = Split bytes newline
      in loadLines_old split [])"

subsection \<open>Zzl, avg and NewFundResult\<close>

text \<open>\<^verbatim>\<open>zzl, _ := strconv.ParseFloat(p.GSZZL, 64); return zzl\<close>\<close>

definition Zzl :: "FundItem \<Rightarrow> float64" where
  "Zzl p = (let (zzl, _) = ParseFloat (GSZZL p) in zzl)"

text \<open>The loop of \<^verbatim>\<open>avg\<close> with its two accumulators (\<open>totalSum\<close> is the source's
  \<^verbatim>\<open>total\<close>), and the division after it.\<close>

fun avgLoop :: "FundItem list \<Rightarrow> float64 \<Rightarrow> float64 \<Rightarrow> float64 \<times> float64" where
  "avgLoop [] totalSum totalWeight = (totalSum, totalWeight)"
| "avgLoop (fund # funds) totalSum totalWeight =
     avgLoop funds (fadd totalSum (fmul (Zzl fund) (Weight fund))) (fadd totalWeight (Weight fund))"

definition avg :: "FundResult \<Rightarrow> float64" where
  "avg p = (let (totalSum, totalWeight) = avgLoop (Funds p) (Fin 0) (Fin 0)
            in fdiv totalSum totalWeight)"

text \<open>The comparison handed to \<^verbatim>\<open>sort.Slice\<close>: \<^verbatim>\<open>items[i].Weight >= items[j].Weight\<close>.\<close>

definition weightGe :: "FundItem \<Rightarrow> FundItem \<Rightarrow> bool" where
  "weightGe a b = fge (Weight a) (Weight b)"

definition NewFundResult ::
  "((FundItem \<Rightarrow> FundItem \<Rightarrow> bool) \<Rightarrow> FundItem list \<Rightarrow> (nat \<times> nat) list) \<Rightarrow> FundItem list \<Rightarrow> FundResult" where
  "NewFundResult pdq items =
     (let fundResult = \<lparr>Funds = [], Avg = Fin 0\<rparr>;
          items = sort_Slice pdq items weightGe;
          fundResult = fundResult\<lparr>Funds := items\<rparr>
      in fundResult\<lparr>Avg := avg fundResult\<rparr>)"

text \<open>\<^verbatim>\<open>NewFundResult\<close> of the older file does not sort.\<close>

definition NewFundResult_old :: "FundItem list \<Rightarrow> FundResult" where
  "NewFundResult_old items =
     (let fundResult = \<lparr>Funds = [], Avg = Fin 0\<rparr>;
          fundResult = fundResult\<lparr>Funds := items\<rparr>
      in fundResult\<lparr>Avg := avg fundResult\<rparr>)"

section \<open>Notions used in the statements\<close>

text \<open>
  Insertion into a sorted list that is kept in reverse: what one round of the inner loop of
  the insertion sort does to the part of the slice before \<open>i\<close>.
\<close>

fun insr :: "('a \<Rightarrow> 'a \<Rightarrow> bool) \<Rightarrow> 'a \<Rightarrow> 'a list \<Rightarrow> 'a list" where
  "insr lessFn x [] = [x]"
| "insr lessFn x (y # ys) = (if lessFn x y then y # insr lessFn x ys else x # y # ys)"


text \<open>The items whose weight equals \<open>w\<close>, in the order of the list.\<close>

definition ties :: "float64 \<Rightarrow> FundItem list \<Rightarrow> FundItem list" where
  "ties w items = filter (\<lambda>x. feq (Weight x) w) items"



text \<open>Every weight is a number.\<close>

definition no_NaN_weight :: "FundItem list \<Rightarrow> bool" where
  "no_NaN_weight items = (\<forall>x \<in> set items. Weight x \<noteq> NaN)"

text \<open>
  The weighted mean as the specification writes it,
  \<^verbatim>\<open>sum(parse_float(item.changePercent, default=0) * item.weight) / sum(item.weight)\<close>:
  a sum adds its terms from the left, starting from 0, and \<open>parse_float\<close> yields the
  default for a text that is not a number. A number beyond the range of \<^verbatim>\<open>float64\<close> is a
  number: it reads as an infinity.
\<close>

definition fsum :: "float64 list \<Rightarrow> float64" where
  "fsum xs = foldl fadd (Fin 0) xs"

definition parse_float :: "string \<Rightarrow> float64 \<Rightarrow> float64" where
  "parse_float s dflt = (case ParseFloat s of (v, Some ErrSyntax) \<Rightarrow> dflt | (v, _) \<Rightarrow> v)"

definition weighted_mean :: "FundItem list \<Rightarrow> float64" where
  "weighted_mean items =
     fdiv (fsum (map (\<lambda>item. fmul (parse_float (GSZZL item) (Fin 0)) (Weight item)) items))
          (fsum (map Weight items))"

text \<open>
  What the loop body of \<^verbatim>\<open>LoadFundIds\<close> makes of a line that has a comma: the first field
  as the identifier, the second as the weight, with the error of the parse dropped.
\<close>

definition parseLine :: "string \<Rightarrow> FundId" where
  "parseLine v = (let i = Split v (CHR '','') in
     \<lparr>FundId_Id = i ! 0, FundId_Weight = fst (ParseFloat (i ! 1))\<rparr>)"

text \<open>An item with a code, a growth rate and a weight, for the examples.\<close>

definition item :: "string \<Rightarrow> string \<Rightarrow> float64 \<Rightarrow> FundItem" where
  "item code zzl w = \<lparr>FCODE = code, SHORTNAME = [], GZTIME = [], GSZZL = zzl, Weight = w\<rparr>"

text \<open>A fund file with an empty line and a weight that is not a number.\<close>

definition fund_file :: string where
  "fund_file =
     ''000001,2'' @ [newline, newline] @ ''000002,x'' @ [newline] @ ''000003,0.5'' @ [newline]"

section \<open>Evaluating the model\<close>

text \<open>
  The simplifier computes with rational numerals; these rules let it take the floor and
  the ceiling of a fraction, and the collections unfold the arithmetic and the parser.
\<close>

lemma floor_num_div: "\<lfloor>numeral a / numeral b :: rat\<rfloor> = numeral a div numeral b"
  using floor_divide_of_int_eq [of "numeral a" "numeral b", where ?'a = rat] by simp

lemma ceiling_num_div: "\<lceil>numeral a / numeral b :: rat\<rceil> = - ((- numeral a) div numeral b)"
  using ceiling_divide_eq_div [of "numeral a" "numeral b", where ?'a = rat] by simp

lemmas feval = round64_def ilog2_def pow2_def round_even_def mk_zero_def mk_inf_def Let_def
  compute_bitlen floor_num_div ceiling_num_div fadd_def fmul_def fdiv_def is_inf_def is_zero_def
  fneg_def fval_def

lemmas peval = ParseFloat_def atof64_def special_def special_inf_def readFloat_def underscoreOK_def
  pow10_def byte_def lower_def is_digit_def is_hex_letter_def

section \<open>The insertion sort\<close>

text \<open>
  The loops over indices compute an insertion into the reversed sorted prefix; the
  properties of the sort are proved on that form.
\<close>

lemma length_insr: "length (insr lessFn x ys) = Suc (length ys)"
  by (induction ys) auto

lemma mset_insr: "mset (insr lessFn x ys) = add_mset x (mset ys)"
  by (induction ys) auto

lemma insertDown_insr:
  "j < length data \<Longrightarrow>
   insertDown lessFn data j = rev (insr lessFn (data ! j) (rev (take j data))) @ drop (Suc j) data"
proof (induction j arbitrary: data)
  case 0
  then show ?case by (cases data) auto
next
  case (Suc j)
  let ?x = "data ! Suc j" and ?y = "data ! j"
  from Suc.prems have j: "j < length data" by simp
  have tk: "rev (take (Suc j) data) = ?y # rev (take j data)"
    using j by (simp add: take_Suc_conv_app_nth)
  show ?case
  proof (cases "lessFn ?x ?y")
    case True
    let ?d = "swap data (Suc j) j"
    have len: "j < length ?d" using j by (simp add: swap_def)
    have a: "?d ! j = ?x" using Suc.prems by (simp add: swap_def)
    have b: "take j ?d = take j data" by (simp add: swap_def)
    have c: "drop (Suc j) ?d = ?y # drop (Suc (Suc j)) data"
      using Suc.prems by (simp add: swap_def drop_update_swap Cons_nth_drop_Suc [symmetric] )
    show ?thesis
      using True Suc.IH [OF len] by (simp add: a b c tk)
  next
    case False
    have "data = take j data @ ?y # ?x # drop (Suc (Suc j)) data"
      using Suc.prems by (metis Cons_nth_drop_Suc Suc_lessD id_take_nth_drop)
    then show ?thesis using False by (simp add: tk)
  qed
qed

lemma foldl_insertDown:
  "foldl (insertDown lessFn) (rev acc @ xs) [length acc ..< length acc + length xs] =
   rev (foldl (\<lambda>a x. insr lessFn x a) acc xs)"
proof (induction xs arbitrary: acc)
  case Nil
  then show ?case by simp
next
  case (Cons x xs)
  have "insertDown lessFn (rev acc @ x # xs) (length acc) = rev (insr lessFn x acc) @ xs"
    by (subst insertDown_insr) (simp_all add: nth_append)
  then show ?case
    using Cons.IH [of "insr lessFn x acc"]
    by (simp add: upt_conv_Cons length_insr del: upt_Suc)
qed

lemma insertionSort_insr:
  "insertionSort lessFn data = rev (foldl (\<lambda>a x. insr lessFn x a) [] data)"
proof (cases data)
  case Nil
  then show ?thesis by (simp add: insertionSort_def)
next
  case (Cons x xs)
  then show ?thesis
    using foldl_insertDown [of lessFn "[x]" xs] by (simp add: insertionSort_def)
qed



subsection \<open>The order on float64\<close>

lemma fge_total: "x \<noteq> NaN \<Longrightarrow> y \<noteq> NaN \<Longrightarrow> fge x y \<or> fge y x"
  by (auto simp: fge_def)

lemma fge_trans: "fge x y \<Longrightarrow> fge y z \<Longrightarrow> fge x z"
  by (auto simp: fge_def split: if_splits)

lemma fge_not_NaN: "fge x y \<Longrightarrow> x \<noteq> NaN \<and> y \<noteq> NaN"
  by (auto simp: fge_def)


subsection \<open>The output is sorted\<close>

lemma sorted_insr:
  assumes tot: "\<And>a b. a \<in> S \<Longrightarrow> b \<in> S \<Longrightarrow> lessFn a b \<or> lessFn b a"
    and trans: "\<And>a b c. a \<in> S \<Longrightarrow> b \<in> S \<Longrightarrow> c \<in> S \<Longrightarrow> lessFn a b \<Longrightarrow> lessFn b c \<Longrightarrow> lessFn a c"
    and "x \<in> S" "set ys \<subseteq> S" "sorted_wrt (\<lambda>a b. lessFn b a) ys"
  shows "sorted_wrt (\<lambda>a b. lessFn b a) (insr lessFn x ys)"
  using assms(3-)
proof (induction ys)
  case Nil
  then show ?case by simp
next
  case (Cons y ys)
  show ?case
  proof (cases "lessFn x y")
    case True
    have "set (insr lessFn x ys) = insert x (set ys)"
      using mset_insr [of lessFn x ys] by (metis set_mset_add_mset_insert set_mset_mset)
    with True Cons show ?thesis by auto
  next
    case False
    then have yx: "lessFn y x" using tot [of x y] Cons.prems by auto
    have "lessFn z x" if "z \<in> set ys" for z
      using trans [of z y x] that Cons.prems yx by auto
    with yx Cons.prems False show ?thesis by auto
  qed
qed

lemma set_insr: "set (insr lessFn x ys) = insert x (set ys)"
  using mset_insr [of lessFn x ys] by (metis set_mset_add_mset_insert set_mset_mset)








lemma weightGe_trans: "weightGe a b \<Longrightarrow> weightGe b c \<Longrightarrow> weightGe a c"
  unfolding weightGe_def by (rule fge_trans)


subsection \<open>Items of equal weight come out reversed\<close>

lemma feq_trans: "feq x y \<Longrightarrow> feq y z \<Longrightarrow> feq x z"
  unfolding feq_def by (meson fge_trans)

lemma feq_sym: "feq x y \<Longrightarrow> feq y x"
  unfolding feq_def by simp

lemma ties_Cons: "ties w (x # xs) = (if feq (Weight x) w then x # ties w xs else ties w xs)"
  by (simp add: ties_def)

lemma ties_Nil: "ties w [] = []"
  by (simp add: ties_def)

lemma ties_empty: "(\<And>z. z \<in> set zs \<Longrightarrow> \<not> feq (Weight z) w) \<Longrightarrow> ties w zs = []"
  by (simp add: ties_def)

lemma ties_insr:
  assumes "sorted_wrt (\<lambda>a b. weightGe b a) ys" "Weight x \<noteq> NaN" "no_NaN_weight ys"
  shows "ties w (insr weightGe x ys) = (if feq (Weight x) w then ties w ys @ [x] else ties w ys)"
  using assms
proof (induction ys)
  case Nil
  then show ?case by (simp add: ties_Cons ties_Nil)
next
  case (Cons y ys)
  have nn: "no_NaN_weight ys" and ny: "Weight y \<noteq> NaN"
    using Cons.prems(3) by (simp_all add: no_NaN_weight_def)
  have srt: "sorted_wrt (\<lambda>a b. weightGe b a) ys" using Cons.prems(1) by simp
  note IH = Cons.IH [OF srt Cons.prems(2) nn]
  show ?case
  proof (cases "weightGe x y")
    case True
    then show ?thesis using IH by (simp add: ties_Cons)
  next
    case False
    then have yx: "fge (Weight y) (Weight x)" and nxy: "\<not> fge (Weight x) (Weight y)"
      using fge_total [OF ny Cons.prems(2)] by (auto simp: weightGe_def)
    have above: "\<not> feq (Weight z) w" if z: "z \<in> set (y # ys)" and w: "feq (Weight x) w" for z
    proof
      assume zw: "feq (Weight z) w"
      have zy: "fge (Weight z) (Weight y)"
      proof (cases "z = y")
        case True
        then show ?thesis using fge_total [OF ny ny] by auto
      next
        case False
        then show ?thesis using z Cons.prems(1) by (auto simp: weightGe_def)
      qed
      have "feq (Weight x) (Weight z)" using w zw feq_trans feq_sym by blast
      then have "fge (Weight x) (Weight z)" by (simp add: feq_def)
      then have "fge (Weight x) (Weight y)" using zy fge_trans by blast
      with nxy show False by simp
    qed
    show ?thesis
    proof (cases "feq (Weight x) w")
      case True
      then have "ties w (y # ys) = []" using above by (intro ties_empty) blast
      then show ?thesis using True False by (simp add: ties_Cons)
    next
      case no: False
      then show ?thesis using False by (simp add: ties_Cons)
    qed
  qed
qed

lemma no_NaN_insr: "Weight x \<noteq> NaN \<Longrightarrow> no_NaN_weight ys \<Longrightarrow> no_NaN_weight (insr lessFn x ys)"
  by (simp add: no_NaN_weight_def set_insr)

lemma sorted_insr_weightGe:
  assumes "sorted_wrt (\<lambda>a b. weightGe b a) ys" "Weight x \<noteq> NaN" "no_NaN_weight ys"
  shows "sorted_wrt (\<lambda>a b. weightGe b a) (insr weightGe x ys)"
proof (rule sorted_insr [where S = "{z. Weight z \<noteq> NaN}"])
  show "\<And>a b. a \<in> {z. Weight z \<noteq> NaN} \<Longrightarrow> b \<in> {z. Weight z \<noteq> NaN} \<Longrightarrow> weightGe a b \<or> weightGe b a"
    by (simp add: weightGe_def fge_total)
  show "\<And>a b c. a \<in> {z. Weight z \<noteq> NaN} \<Longrightarrow> b \<in> {z. Weight z \<noteq> NaN} \<Longrightarrow> c \<in> {z. Weight z \<noteq> NaN} \<Longrightarrow>
      weightGe a b \<Longrightarrow> weightGe b c \<Longrightarrow> weightGe a c"
    by (rule weightGe_trans)
  show "x \<in> {z. Weight z \<noteq> NaN}" using assms(2) by simp
  show "set ys \<subseteq> {z. Weight z \<noteq> NaN}" using assms(3) by (auto simp: no_NaN_weight_def)
  show "sorted_wrt (\<lambda>a b. weightGe b a) ys" by (fact assms(1))
qed

lemma ties_foldl_insr:
  assumes "sorted_wrt (\<lambda>a b. weightGe b a) acc" "no_NaN_weight acc" "no_NaN_weight xs"
  shows "ties w (foldl (\<lambda>a x. insr weightGe x a) acc xs) = ties w acc @ ties w xs"
  using assms
proof (induction xs arbitrary: acc)
  case Nil
  then show ?case by (simp add: ties_Nil)
next
  case (Cons x xs)
  have nx: "Weight x \<noteq> NaN" and nxs: "no_NaN_weight xs"
    using Cons.prems(3) by (simp_all add: no_NaN_weight_def)
  have s: "sorted_wrt (\<lambda>a b. weightGe b a) (insr weightGe x acc)"
    by (rule sorted_insr_weightGe) (fact Cons.prems(1) nx Cons.prems(2))+
  have n: "no_NaN_weight (insr weightGe x acc)"
    by (rule no_NaN_insr) (fact nx Cons.prems(2))+
  have "ties w (foldl (\<lambda>a x. insr weightGe x a) (insr weightGe x acc) xs) =
        ties w (insr weightGe x acc) @ ties w xs"
    by (rule Cons.IH) (fact s n nxs)+
  also have "ties w (insr weightGe x acc) = (if feq (Weight x) w then ties w acc @ [x] else ties w acc)"
    by (rule ties_insr) (fact Cons.prems(1) nx Cons.prems(2))+
  finally show ?case by (simp add: ties_Cons)
qed

lemma ties_insertionSort:
  assumes "no_NaN_weight items"
  shows "ties w (insertionSort weightGe items) = rev (ties w items)"
proof -
  have "ties w (foldl (\<lambda>a x. insr weightGe x a) [] items) = ties w [] @ ties w items"
    by (rule ties_foldl_insr) (use assms in \<open>simp_all add: no_NaN_weight_def\<close>)
  then have "rev (ties w (foldl (\<lambda>a x. insr weightGe x a) [] items)) = rev (ties w items)"
    by (simp add: ties_Nil)
  then show ?thesis
    by (simp add: insertionSort_insr ties_def rev_filter)
qed

subsection \<open>Distinct weights determine the output\<close>









section \<open>The parser\<close>

text \<open>A syntax error comes with the value 0.\<close>

lemma atof64_syntax: "atof64 s = ((v, Some ErrSyntax), n) \<Longrightarrow> v = Fin 0"
  by (auto simp: atof64_def Let_def split: option.splits prod.splits if_splits)

lemma ParseFloat_syntax: "ParseFloat s = (v, Some ErrSyntax) \<Longrightarrow> v = Fin 0"
  by (auto simp: ParseFloat_def Let_def split: prod.splits if_splits dest: atof64_syntax)

section \<open>Reading the fund file\<close>

lemma splitFrom_length: "length (splitFrom sep cur s) = Suc (count_list s sep)"
  by (induction s arbitrary: cur) auto

lemma Split_length: "length (Split s sep) = Suc (count_list s sep)"
  by (simp add: Split_def splitFrom_length)

lemma Split_no_sep: "sep \<notin> set s \<Longrightarrow> Split s sep = [s]"
proof -
  have "sep \<notin> set s \<Longrightarrow> splitFrom sep cur s = [cur @ s]" for cur
    by (induction s arbitrary: cur) auto
  then show "sep \<notin> set s \<Longrightarrow> Split s sep = [s]"
    by (simp add: Split_def)
qed

lemma Split_has_sep: "sep \<in> set s \<Longrightarrow> 2 \<le> length (Split s sep)"
  using count_list_0_iff [of s sep] by (simp add: Split_length)

lemma loadLines_no_comma:
  assumes "v \<noteq> []" "CHR '','' \<notin> set v"
  shows "loadLines (v # split) fundIds = Inl (IndexOutOfRange 1 1)"
  using assms by (simp add: Split_no_sep)

lemma Split_Nil: "Split [] sep = [[]]"
  by (simp add: Split_def)

lemma loadLines_filter: "loadLines split fundIds = loadLines (filter (\<lambda>v. v \<noteq> []) split) fundIds"
  by (induction split arbitrary: fundIds) (simp_all add: Let_def case_prod_unfold)

lemma loadLines_ok:
  "(\<And>v. v \<in> set split \<Longrightarrow> v \<noteq> [] \<Longrightarrow> CHR '','' \<in> set v) \<Longrightarrow>
   loadLines split fundIds = Inr (fundIds @ map parseLine (filter (\<lambda>v. v \<noteq> []) split))"
proof (induction split arbitrary: fundIds)
  case Nil
  then show ?case by simp
next
  case (Cons v split)
  show ?case
  proof (cases "v = []")
    case True
    then show ?thesis using Cons by simp
  next
    case False
    then have "2 \<le> length (Split v (CHR '',''))"
      using Cons.prems [of v] by (simp add: Split_has_sep)
    then show ?thesis
      using False Cons.IH [of "fundIds @ [parseLine v]"] Cons.prems
      by (simp add: Let_def parseLine_def case_prod_unfold)
  qed
qed

lemma loadLines_panics:
  "\<exists>v \<in> set split. v \<noteq> [] \<and> CHR '','' \<notin> set v \<Longrightarrow>
   loadLines split fundIds = Inl (IndexOutOfRange 1 1)"
proof (induction split arbitrary: fundIds)
  case Nil
  then show ?case by simp
next
  case (Cons v split)
  show ?case
  proof (cases "v = []")
    case True
    then show ?thesis using Cons by simp
  next
    case False
    show ?thesis
    proof (cases "CHR '','' \<in> set v")
      case True
      then have "2 \<le> length (Split v (CHR '',''))" by (simp add: Split_has_sep)
      moreover have "\<exists>v \<in> set split. v \<noteq> [] \<and> CHR '','' \<notin> set v"
        using Cons.prems True by auto
      ultimately show ?thesis
        using False Cons.IH by (simp add: Let_def case_prod_unfold)
    next
      case nc: False
      then show ?thesis using False by (simp add: Split_no_sep)
    qed
  qed
qed

lemma loadLines_old_empty: "loadLines_old ([] # split) fundIds = Inl (IndexOutOfRange 1 1)"
  by (simp add: Split_Nil)

lemma LoadFundIds_old_absent: "LoadFundIds_old None = Inl (IndexOutOfRange 1 1)"
  by (simp add: LoadFundIds_old_def Split_Nil)

lemma LoadFundIds_ok:
  assumes "\<And>v. v \<in> set (Split s newline) \<Longrightarrow> v \<noteq> [] \<Longrightarrow> CHR '','' \<in> set v"
  shows "LoadFundIds (Some s) = Inr (map parseLine (filter (\<lambda>v. v \<noteq> []) (Split s newline)))"
  using loadLines_ok [of "Split s newline" "[]"] assms by (simp add: LoadFundIds_def)

lemma LoadFundIds_panics:
  "\<exists>v \<in> set (Split s newline). v \<noteq> [] \<and> CHR '','' \<notin> set v \<Longrightarrow>
   LoadFundIds (Some s) = Inl (IndexOutOfRange 1 1)"
  by (simp add: LoadFundIds_def loadLines_panics)

lemma parseLine_malformed:
  "snd (ParseFloat (Split v (CHR '','') ! 1)) = Some ErrSyntax \<Longrightarrow> FundId_Weight (parseLine v) = Fin 0"
  by (metis FundId.select_convs(2) ParseFloat_syntax parseLine_def prod.collapse)

lemma fmul_zero_finite:
  assumes "is_finite w"
  shows "is_zero (fmul (Fin 0) w)"
proof -
  have "w \<noteq> NaN" "\<not> is_inf w"
    using assms by (auto simp: is_finite_def is_inf_def)
  moreover have "round64 b 0 = mk_zero b" for b
    by (simp add: round64_def)
  moreover have "is_zero (mk_zero b)" for b
    by (simp add: mk_zero_def is_zero_def)
  ultimately show ?thesis
    by (simp add: fmul_def is_inf_def fval_def)
qed

section \<open>The average\<close>

lemma avgLoop_fold:
  "avgLoop funds t tw =
     (foldl fadd t (map (\<lambda>f. fmul (Zzl f) (Weight f)) funds), foldl fadd tw (map Weight funds))"
  by (induction funds arbitrary: t tw) auto

lemma Zzl_parse_float: "Zzl p = parse_float (GSZZL p) (Fin 0)"
  by (auto simp: Zzl_def parse_float_def split: prod.splits option.splits NumError.splits
      dest: ParseFloat_syntax)

lemma avg_weighted_mean: "avg r = weighted_mean (Funds r)"
  by (simp add: avg_def avgLoop_fold weighted_mean_def fsum_def Zzl_parse_float)

lemma fdiv_zero:
  assumes "is_zero y"
  shows "fdiv x y = NaN \<or> is_inf (fdiv x y)"
proof -
  have ny: "y \<noteq> NaN" "\<not> is_inf y"
    using assms by (auto simp: is_zero_def is_inf_def)
  have inf: "is_inf (mk_inf b)" for b
    by (simp add: is_inf_def mk_inf_def)
  show ?thesis
    unfolding fdiv_def using assms ny inf by simp
qed

lemma Funds_NewFundResult: "Funds (NewFundResult pdq items) = sort_Slice pdq items weightGe"
  by (simp add: NewFundResult_def)

lemma Avg_NewFundResult: "Avg (NewFundResult pdq items) = avg (NewFundResult pdq items)"
  by (simp add: NewFundResult_def avg_def Let_def)

section \<open>Examples\<close>

lemmas sort_eval = NewFundResult_def sort_Slice_def insertionSort_def swap_def weightGe_def
  fge_def feq_def fgt_def

lemma item_sel: "Weight (item c z w) = w" "GSZZL (item c z w) = z" "FCODE (item c z w) = c"
  by (simp_all add: item_def)

lemma item_eq: "item c z w = item c' z' w' \<longleftrightarrow> c = c' \<and> z = z' \<and> w = w'"
  by (auto simp: item_def)

lemma Zzl_item: "Zzl (item c z w) = fst (ParseFloat z)"
  by (simp add: Zzl_def item_def split: prod.splits)

lemma pf1: "ParseFloat ''1.0'' = (Fin 1, None)"
  by (simp add: peval feval)
lemma pf3: "ParseFloat ''3.0'' = (Fin 3, None)"
  by (simp add: peval feval)

section \<open>The aggregator\<close>

text \<open>
  Claim C1. For items whose weights do not sum to zero, the \<open>Avg\<close> field of the report of
  \<^verbatim>\<open>NewFundResult\<close> is the weighted mean of the report's items: the sum of the parsed
  growth rates times the weights, divided by the sum of the weights.
\<close>

theorem avg_is_weighted_mean:
  "\<not> is_zero (fsum (map Weight (Funds (NewFundResult pdq items)))) \<Longrightarrow>
   Avg (NewFundResult pdq items) = weighted_mean (Funds (NewFundResult pdq items))"
  by (simp add: Avg_NewFundResult avg_weighted_mean)

text \<open>
  The example of the specification: growth rates 1.0 and 3.0 with weights 2 and 1 have
  the mean 5/3, rounded to \<^verbatim>\<open>float64\<close>.
\<close>

theorem avg_is_weighted_mean_witness:
  "\<not> is_zero (fsum (map Weight
      (Funds (NewFundResult no_swaps [item ''A'' ''1.0'' (Fin 2), item ''B'' ''3.0'' (Fin 1)])))) \<and>
   Avg (NewFundResult no_swaps [item ''A'' ''1.0'' (Fin 2), item ''B'' ''3.0'' (Fin 1)])
     = weighted_mean (Funds (NewFundResult no_swaps
         [item ''A'' ''1.0'' (Fin 2), item ''B'' ''3.0'' (Fin 1)])) \<and>
   weighted_mean (Funds (NewFundResult no_swaps
         [item ''A'' ''1.0'' (Fin 2), item ''B'' ''3.0'' (Fin 1)]))
     = Fin (7505999378950827 / 4503599627370496)"
proof -
  have srt: "Funds (NewFundResult no_swaps [item ''A'' ''1.0'' (Fin 2), item ''B'' ''3.0'' (Fin 1)])
      = [item ''A'' ''1.0'' (Fin 2), item ''B'' ''3.0'' (Fin 1)]"
    by (simp add: sort_eval item_sel fval_def)
  have nz: "\<not> is_zero (fsum (map Weight
      (Funds (NewFundResult no_swaps [item ''A'' ''1.0'' (Fin 2), item ''B'' ''3.0'' (Fin 1)]))))"
    by (simp add: srt item_sel fsum_def feval)
  have wm: "weighted_mean (Funds (NewFundResult no_swaps
         [item ''A'' ''1.0'' (Fin 2), item ''B'' ''3.0'' (Fin 1)]))
     = Fin (7505999378950827 / 4503599627370496)"
    by (simp add: srt weighted_mean_def parse_float_def item_sel pf1 pf3 fsum_def feval)
  show ?thesis
    using avg_is_weighted_mean [OF nz] nz wm by simp
qed

text \<open>
  Claim C3 says that weights summing to zero make the aggregator report a division by
  zero instead of returning NaN or an infinity. The code has no such report: two items
  of weight 0 give the average NaN.
\<close>

theorem zero_weights_counterexample:
  "is_zero (fsum (map Weight [item ''A'' ''1.0'' (Fin 0), item ''B'' ''3.0'' (Fin 0)])) \<and>
   Avg (NewFundResult no_swaps [item ''A'' ''1.0'' (Fin 0), item ''B'' ''3.0'' (Fin 0)]) = NaN"
  by (simp add: sort_eval item_sel fsum_def avg_def Zzl_item pf1 pf3 feval)

text \<open>
  Claim C3, amended: when the weights of the report's items sum to zero, the average the
  aggregator returns is NaN or an infinity.
\<close>

theorem zero_weight_sum_not_finite:
  "is_zero (fsum (map Weight (Funds (NewFundResult pdq items)))) \<Longrightarrow>
   Avg (NewFundResult pdq items) = NaN \<or> is_inf (Avg (NewFundResult pdq items))"
  by (simp add: Avg_NewFundResult avg_weighted_mean weighted_mean_def fdiv_zero)

theorem zero_weight_sum_not_finite_witness:
  "is_zero (fsum (map Weight (Funds (NewFundResult no_swaps
       [item ''A'' ''1.0'' (Fin 1), item ''B'' ''3.0'' (Fin (- 1))])))) \<and>
   (Avg (NewFundResult no_swaps [item ''A'' ''1.0'' (Fin 1), item ''B'' ''3.0'' (Fin (- 1))]) = NaN \<or>
    is_inf (Avg (NewFundResult no_swaps [item ''A'' ''1.0'' (Fin 1), item ''B'' ''3.0'' (Fin (- 1))]))) \<and>
   Avg (NewFundResult no_swaps [item ''A'' ''1.0'' (Fin 1), item ''B'' ''3.0'' (Fin (- 1))]) = NegInf"
proof -
  have srt: "Funds (NewFundResult no_swaps [item ''A'' ''1.0'' (Fin 1), item ''B'' ''3.0'' (Fin (- 1))])
      = [item ''A'' ''1.0'' (Fin 1), item ''B'' ''3.0'' (Fin (- 1))]"
    by (simp add: sort_eval item_sel fval_def)
  have z: "is_zero (fsum (map Weight (Funds (NewFundResult no_swaps
       [item ''A'' ''1.0'' (Fin 1), item ''B'' ''3.0'' (Fin (- 1))]))))"
    by (simp add: srt item_sel fsum_def feval)
  have v: "Avg (NewFundResult no_swaps [item ''A'' ''1.0'' (Fin 1), item ''B'' ''3.0'' (Fin (- 1))]) = NegInf"
    by (simp add: sort_eval item_sel avg_def Zzl_item pf1 pf3 feval)
  show ?thesis
    using zero_weight_sum_not_finite [OF z] z v by simp
qed




text \<open>
  Claim C5 says that the sort keeps items of equal weight in their input order. The
  comparison is \<^verbatim>\<open>>=\<close>, so the insertion sort moves an item in front of every earlier item
  of the same weight: two items of weight 1 come out exchanged.
\<close>

theorem stable_counterexample:
  "ties (Fin 1) (Funds (NewFundResult no_swaps [item ''A'' ''1.0'' (Fin 1), item ''B'' ''3.0'' (Fin 1)]))
     = [item ''B'' ''3.0'' (Fin 1), item ''A'' ''1.0'' (Fin 1)] \<and>
   ties (Fin 1) [item ''A'' ''1.0'' (Fin 1), item ''B'' ''3.0'' (Fin 1)]
     = [item ''A'' ''1.0'' (Fin 1), item ''B'' ''3.0'' (Fin 1)] \<and>
   ties (Fin 1) (Funds (NewFundResult no_swaps [item ''A'' ''1.0'' (Fin 1), item ''B'' ''3.0'' (Fin 1)]))
     \<noteq> ties (Fin 1) [item ''A'' ''1.0'' (Fin 1), item ''B'' ''3.0'' (Fin 1)]"
  by (simp add: sort_eval ties_def item_sel fval_def item_eq)

text \<open>
  Claim C5, amended: for up to 12 items, whose weights are numbers, the items of any one
  weight appear in the report in the reverse of their input order.
\<close>

theorem ties_reversed:
  assumes "length items \<le> 12" "no_NaN_weight items"
  shows "ties w (Funds (NewFundResult pdq items)) = rev (ties w items)"
  using assms by (simp add: Funds_NewFundResult sort_Slice_def ties_insertionSort)

theorem ties_reversed_witness:
  "length [item ''A'' ''1.0'' (Fin 1), item ''B'' ''3.0'' (Fin 2), item ''C'' ''0.1'' (Fin 1)] \<le> 12 \<and>
   no_NaN_weight [item ''A'' ''1.0'' (Fin 1), item ''B'' ''3.0'' (Fin 2), item ''C'' ''0.1'' (Fin 1)] \<and>
   ties (Fin 1) (Funds (NewFundResult no_swaps
       [item ''A'' ''1.0'' (Fin 1), item ''B'' ''3.0'' (Fin 2), item ''C'' ''0.1'' (Fin 1)]))
     = rev (ties (Fin 1) [item ''A'' ''1.0'' (Fin 1), item ''B'' ''3.0'' (Fin 2), item ''C'' ''0.1'' (Fin 1)]) \<and>
   Funds (NewFundResult no_swaps
       [item ''A'' ''1.0'' (Fin 1), item ''B'' ''3.0'' (Fin 2), item ''C'' ''0.1'' (Fin 1)])
     = [item ''B'' ''3.0'' (Fin 2), item ''C'' ''0.1'' (Fin 1), item ''A'' ''1.0'' (Fin 1)]"
proof -
  have l: "length [item ''A'' ''1.0'' (Fin 1), item ''B'' ''3.0'' (Fin 2), item ''C'' ''0.1'' (Fin 1)] \<le> 12"
    by simp
  have n: "no_NaN_weight [item ''A'' ''1.0'' (Fin 1), item ''B'' ''3.0'' (Fin 2), item ''C'' ''0.1'' (Fin 1)]"
    by (simp add: no_NaN_weight_def item_sel)
  have v: "Funds (NewFundResult no_swaps
       [item ''A'' ''1.0'' (Fin 1), item ''B'' ''3.0'' (Fin 2), item ''C'' ''0.1'' (Fin 1)])
     = [item ''B'' ''3.0'' (Fin 2), item ''C'' ''0.1'' (Fin 1), item ''A'' ''1.0'' (Fin 1)]"
    by (simp add: sort_eval item_sel fval_def)
  show ?thesis
    using ties_reversed [OF l n, of "Fin 1" no_swaps] l n v by simp
qed




section \<open>The configuration source\<close>

text \<open>
  Claim C8. In \<^verbatim>\<open>main.go\<close>, \<^verbatim>\<open>LoadFundIds\<close> yields no request for an absent or empty file;
  it passes over empty lines; and when every other line has a comma it yields one request
  per such line, in order, the weight being zero where the text of the weight is not a
  number.
\<close>

theorem LoadFundIds_tolerant:
  "LoadFundIds None = Inr [] \<and> LoadFundIds (Some []) = Inr [] \<and>
   ((\<forall>v \<in> set (Split s newline). v \<noteq> [] \<longrightarrow> CHR '','' \<in> set v) \<longrightarrow>
      LoadFundIds (Some s) = Inr (map parseLine (filter (\<lambda>v. v \<noteq> []) (Split s newline))) \<and>
      (\<forall>v \<in> set (Split s newline).
          snd (ParseFloat (Split v (CHR '','') ! 1)) = Some ErrSyntax \<longrightarrow>
          FundId_Weight (parseLine v) = Fin 0))"
proof (intro conjI impI ballI)
  show "LoadFundIds None = Inr []" by (simp add: LoadFundIds_def Split_Nil)
  show "LoadFundIds (Some []) = Inr []" by (simp add: LoadFundIds_def Split_Nil)
next
  assume "\<forall>v \<in> set (Split s newline). v \<noteq> [] \<longrightarrow> CHR '','' \<in> set v"
  then show "LoadFundIds (Some s) = Inr (map parseLine (filter (\<lambda>v. v \<noteq> []) (Split s newline)))"
    by (intro LoadFundIds_ok) blast
next
  fix v
  assume "snd (ParseFloat (Split v (CHR '','') ! 1)) = Some ErrSyntax"
  then show "FundId_Weight (parseLine v) = Fin 0" by (rule parseLine_malformed)
qed

lemma pf2: "ParseFloat ''2'' = (Fin 2, None)"
  by (simp add: peval feval)
lemma pfx: "ParseFloat ''x'' = (Fin 0, Some ErrSyntax)"
  by (simp add: peval feval)
lemma pf05: "ParseFloat ''0.5'' = (Fin (1/2), None)"
  by (simp add: peval feval)

lemma fund_file_lines:
  "Split fund_file newline = [''000001,2'', [], ''000002,x'', ''000003,0.5'', []]"
  by (simp add: fund_file_def Split_def newline_def)

lemma parse_lines:
  "parseLine ''000001,2'' = \<lparr>FundId_Id = ''000001'', FundId_Weight = Fin 2\<rparr>"
  "parseLine ''000002,x'' = \<lparr>FundId_Id = ''000002'', FundId_Weight = Fin 0\<rparr>"
  "parseLine ''000003,0.5'' = \<lparr>FundId_Id = ''000003'', FundId_Weight = Fin (1/2)\<rparr>"
  by (simp_all add: parseLine_def Split_def pf2 pfx pf05)

theorem LoadFundIds_tolerant_witness:
  "Split fund_file newline = [''000001,2'', [], ''000002,x'', ''000003,0.5'', []] \<and>
   CHR '','' \<in> set ''000001,2'' \<and> CHR '','' \<in> set ''000002,x'' \<and>
   CHR '','' \<in> set ''000003,0.5'' \<and>
   LoadFundIds (Some fund_file) =
     Inr [\<lparr>FundId_Id = ''000001'', FundId_Weight = Fin 2\<rparr>,
          \<lparr>FundId_Id = ''000002'', FundId_Weight = Fin 0\<rparr>,
          \<lparr>FundId_Id = ''000003'', FundId_Weight = Fin (1/2)\<rparr>] \<and>
   snd (ParseFloat (Split ''000002,x'' (CHR '','') ! 1)) = Some ErrSyntax \<and>
   FundId_Weight (parseLine ''000002,x'') = Fin 0"
proof -
  have h: "\<forall>v \<in> set (Split fund_file newline). v \<noteq> [] \<longrightarrow> CHR '','' \<in> set v"
    by (simp add: fund_file_lines)
  have e: "snd (ParseFloat (Split ''000002,x'' (CHR '','') ! 1)) = Some ErrSyntax"
    by (simp add: Split_def pfx)
  have m: "''000002,x'' \<in> set (Split fund_file newline)"
    by (simp add: fund_file_lines)
  show ?thesis
    using LoadFundIds_tolerant [of fund_file] h e m
    by (simp add: fund_file_lines parse_lines)
qed

text \<open>
  Claim C9 says that for a non-empty line without a comma the read of the second field
  stays within bounds. It does not: the line splits into one field and \<^verbatim>\<open>i[1]\<close> panics,
  in both files.
\<close>

theorem no_comma_line_panics:
  "LoadFundIds (Some ''000001'') = Inl (IndexOutOfRange 1 1) \<and>
   LoadFundIds_old (Some ''000001'') = Inl (IndexOutOfRange 1 1)"
  by (simp add: LoadFundIds_def LoadFundIds_old_def Split_def newline_def)

text \<open>
  Claim C7. \<^verbatim>\<open>Zzl\<close> returns 0 for every text that is not a number, and with a finite weight
  such an item adds a zero to the weighted sum.
\<close>

theorem Zzl_non_numeric:
  assumes "snd (ParseFloat (GSZZL p)) = Some ErrSyntax"
  shows "Zzl p = Fin 0 \<and> (is_finite (Weight p) \<longrightarrow> is_zero (fmul (Zzl p) (Weight p)))"
proof -
  have "Zzl p = Fin 0"
    using assms ParseFloat_syntax [of "GSZZL p"] by (cases "ParseFloat (GSZZL p)") (simp add: Zzl_def)
  then show ?thesis by (simp add: fmul_zero_finite)
qed

lemma pfe: "ParseFloat [] = (Fin 0, Some ErrSyntax)"
  by (simp add: peval feval)

theorem Zzl_non_numeric_witness:
  "snd (ParseFloat (GSZZL (item ''A'' [] (Fin 2)))) = Some ErrSyntax \<and>
   Zzl (item ''A'' [] (Fin 2)) = Fin 0 \<and>
   is_finite (Weight (item ''A'' [] (Fin 2))) \<and>
   is_zero (fmul (Zzl (item ''A'' [] (Fin 2))) (Weight (item ''A'' [] (Fin 2))))"
proof -
  have h: "snd (ParseFloat (GSZZL (item ''A'' [] (Fin 2)))) = Some ErrSyntax"
    by (simp add: item_sel pfe)
  have f: "is_finite (Weight (item ''A'' [] (Fin 2)))"
    by (simp add: item_sel is_finite_def)
  show ?thesis
    using Zzl_non_numeric [OF h] h f by blast
qed

text \<open>
  Texts that are not numbers, among them a decimal comma and a percent sign; a number
  beyond the range, which reads as an infinity with a range error; and the spellings of
  the special values, which read without an error.
\<close>

lemma syntax_error_examples:
  "ParseFloat ''abc'' = (Fin 0, Some ErrSyntax)"
  "ParseFloat ''--'' = (Fin 0, Some ErrSyntax)"
  "ParseFloat ''1,5'' = (Fin 0, Some ErrSyntax)"
  "ParseFloat ''1.5%'' = (Fin 0, Some ErrSyntax)"
  by (simp_all add: peval feval)

lemma range_error_example:
  "ParseFloat ''2e308'' = (PosInf, Some ErrRange)"
  by (simp add: peval feval)

lemma special_examples:
  "ParseFloat ''NaN'' = (NaN, None)"
  "ParseFloat ''-Inf'' = (NegInf, None)"
  by (simp_all add: peval feval)

end
